theory Spec2Isabelle
  imports Complex_Main
begin

section \<open>The Landing component: paginated artworks with a cross-page selection\<close>

text \<open>
  A shallow embedding of \<^verbatim>\<open>src/pages/Landing.tsx\<close>. The component keeps its state in
  React hooks; a handler reads the state of the render that created it and queues
  updates through the setters, so a handler is a function from the state it closes over to
  the state after its setters have run, together with what it requested from the network.

  JavaScript numbers are modelled by \<open>int\<close> (page numbers, row offsets, counts and record
  identities are integers here); the one division of the source whose quotient need not be
  an integer is carried out in \<open>real\<close>. A value that may be \<^verbatim>\<open>undefined\<close> or
  \<^verbatim>\<open>null\<close> is an \<open>option\<close>, \<open>None\<close> standing for both.
\<close>

subsection \<open>Data\<close>

text \<open>
  Modelled from the spec: the \<^verbatim>\<open>Artwork\<close> type (\<^verbatim>\<open>src/types/Artwork\<close> is not among
  the sources). The identity key is the \<^verbatim>\<open>id\<close> the selection map is keyed by; the
  other fields are the ones the table's columns display.
\<close>

record artwork =
  artwork_id :: int
  title :: string
  place_of_origin :: string
  artist_display :: string
  inscriptions :: string
  date_start :: int
  date_end :: int

text \<open>
  The JSON body of the API, as far as the component reads it:
  \<^verbatim>\<open>{ data: [...], pagination: { total: ... } }\<close>, each of the three possibly missing.
\<close>

record pagination =
  total :: "int option"

record body =
  data :: "artwork list option"
  pagination :: "pagination option"

text \<open>
  What one \<^verbatim>\<open>fetch(...)\<close> followed by \<^verbatim>\<open>response.json()\<close> can give: the fetch
  promise rejects, the body is not JSON, the body is the JSON value \<^verbatim>\<open>null\<close>, or it is
  an object. An HTTP error status does not reject the promise: its body is read like any
  other. Bodies that are JSON numbers, strings, booleans or arrays, and objects whose
  \<^verbatim>\<open>data\<close> is not an array of records or whose \<^verbatim>\<open>total\<close> is not an integer,
  are not modelled.
\<close>

datatype response = FetchRejected | JsonRejected | JsonNull | JsonObject body

datatype error = NetworkError | SyntaxError | TypeError

text \<open>
  The remote API is a transition function on a state of its own, so that the same page may
  be answered differently at different times.
\<close>

type_synonym 'w remote = "'w \<Rightarrow> int \<Rightarrow> response \<times> 'w"

text \<open>
  A JavaScript \<^verbatim>\<open>Map<number, Artwork>\<close>: its entries in insertion order, the keys
  pairwise distinct.
\<close>

type_synonym selection = "(int \<times> artwork) list"

record state =
  artworks :: "artwork list option"
  currentPage :: int
  firstRow :: int
  totalRecords :: "int option"
  selectedArtworks :: selection
  showFilter :: bool
  rowsToFetch :: "int option"

definition initial_state :: state where
  "initial_state =
     \<lparr>artworks = Some [], currentPage = 1, firstRow = 0, totalRecords = Some 0,
      selectedArtworks = [], showFilter = False, rowsToFetch = None\<rparr>"

text \<open>The event of the paginator: \<^verbatim>\<open>event.first\<close> and \<^verbatim>\<open>event.rows\<close>.\<close>

record page_event =
  first :: int
  rows :: int

subsection \<open>The selection map\<close>

text \<open>
  \<^verbatim>\<open>Map.prototype.set\<close>: an existing key keeps its place and gets the new value, a new
  key goes to the end.
\<close>

fun Map_set :: "int \<Rightarrow> artwork \<Rightarrow> selection \<Rightarrow> selection" where
  "Map_set k v [] = [(k, v)]"
| "Map_set k v ((k', v') # m) = (if k' = k then (k, v) # m else (k', v') # Map_set k v m)"

text \<open>\<^verbatim>\<open>Array.from(m.values())\<close>.\<close>

definition Map_values :: "selection \<Rightarrow> artwork list" where
  "Map_values m = map snd m"

definition Map_keys :: "selection \<Rightarrow> int list" where
  "Map_keys m = map fst m"

text \<open>
  \<^verbatim>\<open>rows.forEach((artwork) => m.set(artwork.id, artwork))\<close>. An element of the array
  that is \<^verbatim>\<open>undefined\<close> makes \<^verbatim>\<open>artwork.id\<close> throw.
\<close>

fun forEach_set :: "artwork option list \<Rightarrow> selection \<Rightarrow> error + selection" where
  "forEach_set [] m = Inr m"
| "forEach_set (None # rest) m = Inl TypeError"
| "forEach_set (Some a # rest) m = forEach_set rest (Map_set (artwork_id a) a m)"

text \<open>
  The \<^verbatim>\<open>onSelectionChange\<close> handler of the table: a new map filled from
  \<^verbatim>\<open>e.value\<close>, which replaces the selection. The table reports records, so the
  loop does not throw; if it did, the setter after it would not run.
\<close>

definition onSelectionChange :: "artwork list \<Rightarrow> state \<Rightarrow> state" where
  "onSelectionChange e_value s =
     (case forEach_set (map Some e_value) [] of
        Inl e \<Rightarrow> s
      | Inr newSelectedMap \<Rightarrow> s\<lparr>selectedArtworks := newSelectedMap\<rparr>)"

text \<open>The \<^verbatim>\<open>selection\<close> property handed to the table.\<close>

definition selection_prop :: "state \<Rightarrow> artwork list" where
  "selection_prop s = Map_values (selectedArtworks s)"

subsection \<open>Fetching one page\<close>

text \<open>
  \<^verbatim>\<open>fetchArtworksByPage\<close>: the two setters run in the order of the source, so a body
  without \<^verbatim>\<open>pagination\<close> throws at \<^verbatim>\<open>data.pagination.total\<close> when
  \<^verbatim>\<open>setArtworks(data.data)\<close> has already been called. Nothing catches the rejection.
\<close>

definition fetchArtworksByPage ::
  "'w remote \<Rightarrow> int \<Rightarrow> state \<Rightarrow> 'w \<Rightarrow> (error + unit) \<times> state \<times> 'w" where
  "fetchArtworksByPage srv pageNumber s w =
     (case srv w pageNumber of (r, w') \<Rightarrow>
        (case r of
           FetchRejected \<Rightarrow> (Inl NetworkError, s, w')
         | JsonRejected \<Rightarrow> (Inl SyntaxError, s, w')
         | JsonNull \<Rightarrow> (Inl TypeError, s, w')
         | JsonObject b \<Rightarrow>
             (let s1 = s\<lparr>artworks := data b\<rparr> in
              case pagination b of
                None \<Rightarrow> (Inl TypeError, s1, w')
              | Some p \<Rightarrow> (Inr (), s1\<lparr>totalRecords := total p\<rparr>, w'))))"

subsection \<open>Page changes\<close>

text \<open>
  \<^verbatim>\<open>handlePageChange\<close>. With \<^verbatim>\<open>event.rows = 0\<close> the quotient is
  \<^verbatim>\<open>Infinity\<close> or \<^verbatim>\<open>NaN\<close>, which no \<open>int\<close> stands for: the result is \<open>None\<close>
  there.
\<close>

definition handlePageChange :: "page_event \<Rightarrow> state \<Rightarrow> state option" where
  "handlePageChange event s =
     (if rows event = 0 then None
      else Some (s\<lparr>firstRow := first event,
                   currentPage := \<lfloor>real_of_int (first event) / real_of_int (rows event)\<rfloor> + 1\<rparr>))"

subsection \<open>Bulk selection\<close>

text \<open>
  The loop condition \<^verbatim>\<open>nextPage <= totalRecords / 12\<close>. With \<^verbatim>\<open>totalRecords\<close>
  undefined the quotient is \<^verbatim>\<open>NaN\<close> and the comparison is false.
\<close>

definition page_in_range :: "int \<Rightarrow> int option \<Rightarrow> bool" where
  "page_in_range nextPage totalRecords' =
     (case totalRecords' of
        None \<Rightarrow> False
      | Some t \<Rightarrow> real_of_int nextPage \<le> real_of_int t / 12)"

text \<open>
  \<^verbatim>\<open>fetchedArtworks.concat(data.data)\<close>: an array argument is spread, any other value
  is appended as one element.
\<close>

definition concat_js :: "artwork option list \<Rightarrow> artwork list option \<Rightarrow> artwork option list" where
  "concat_js xs d = (case d of None \<Rightarrow> xs @ [None] | Some ys \<Rightarrow> xs @ map Some ys)"

text \<open>\<^verbatim>\<open>xs.slice(0, e)\<close>: a negative end counts from the end of the array.\<close>

definition slice0 :: "'a list \<Rightarrow> int \<Rightarrow> 'a list" where
  "slice0 xs e = (if e < 0 then take (nat (int (length xs) + e)) xs else take (nat e) xs)"

text \<open>
  The \<^verbatim>\<open>while\<close> loop of \<^verbatim>\<open>fetchAdditionalPages\<close>. Besides the buffer it returns the
  requests it made, each with its answer, in the order they were made, and the state the
  remote is left in.
\<close>

function fetch_loop ::
  "'w remote \<Rightarrow> int option \<Rightarrow> int \<Rightarrow> artwork option list \<Rightarrow> int \<Rightarrow> 'w \<Rightarrow>
     (error + artwork option list) \<times> (int \<times> response) list \<times> 'w" where
  "fetch_loop srv totalRecords' rowsNeeded fetchedArtworks nextPage w =
     (if int (length fetchedArtworks) < rowsNeeded \<and> page_in_range nextPage totalRecords' then
        (case srv w nextPage of (r, w') \<Rightarrow>
           (case r of
              FetchRejected \<Rightarrow> (Inl NetworkError, [(nextPage, r)], w')
            | JsonRejected \<Rightarrow> (Inl SyntaxError, [(nextPage, r)], w')
            | JsonNull \<Rightarrow> (Inl TypeError, [(nextPage, r)], w')
            | JsonObject b \<Rightarrow>
                (case fetch_loop srv totalRecords' rowsNeeded
                        (concat_js fetchedArtworks (data b)) (nextPage + 1) w' of
                   (res, requests, w'') \<Rightarrow> (res, (nextPage, r) # requests, w''))))
      else (Inr fetchedArtworks, [], w))"
  by pat_completeness auto
termination
proof (relation "measure (\<lambda>(srv, totalRecords', rowsNeeded, fetchedArtworks, nextPage, w).
          case totalRecords' of None \<Rightarrow> 0 | Some t \<Rightarrow> nat (t div 12 + 1 - nextPage))")
  show "wf (measure (\<lambda>(srv :: 'w remote, totalRecords' :: int option, rowsNeeded :: int,
          fetchedArtworks :: artwork option list, nextPage :: int, w :: 'w).
          case totalRecords' of None \<Rightarrow> 0 | Some t \<Rightarrow> nat (t div 12 + 1 - nextPage)))"
    by simp
next
  fix srv :: "'w remote" and totalRecords' :: "int option" and rowsNeeded :: int
    and fetchedArtworks :: "artwork option list" and nextPage :: int and w :: 'w
    and x :: "response \<times> 'w" and xa :: response and y :: 'w and x4 :: body
  assume c: "int (length fetchedArtworks) < rowsNeeded \<and> page_in_range nextPage totalRecords'"
  then obtain t where t: "totalRecords' = Some t" and le: "real_of_int nextPage \<le> real_of_int t / 12"
    by (auto simp: page_in_range_def split: option.splits)
  from le have "real_of_int (12 * nextPage) \<le> real_of_int t"
    by simp
  then have "12 * nextPage \<le> t"
    by (simp only: of_int_le_iff)
  then have "nextPage \<le> t div 12"
    by presburger
  with t show "((srv, totalRecords', rowsNeeded, concat_js fetchedArtworks (data x4), nextPage + 1, y),
         srv, totalRecords', rowsNeeded, fetchedArtworks, nextPage, w)
        \<in> measure (\<lambda>(srv, totalRecords', rowsNeeded, fetchedArtworks, nextPage, w).
          case totalRecords' of None \<Rightarrow> 0 | Some t \<Rightarrow> nat (t div 12 + 1 - nextPage))"
    by simp
qed

declare fetch_loop.simps [simp del]

text \<open>
  \<^verbatim>\<open>fetchAdditionalPages\<close>. The buffer starts as a copy of the \<^verbatim>\<open>artworks\<close> of the
  state the handler closes over, and \<^verbatim>\<open>totalRecords\<close> is that state's too; spreading an
  undefined \<^verbatim>\<open>artworks\<close> throws before any request.
\<close>

definition fetchAdditionalPages ::
  "'w remote \<Rightarrow> state \<Rightarrow> int \<Rightarrow> int \<Rightarrow> 'w \<Rightarrow>
     (error + artwork option list) \<times> (int \<times> response) list \<times> 'w" where
  "fetchAdditionalPages srv s rowsNeeded currentPage' w =
     (case artworks s of
        None \<Rightarrow> (Inl TypeError, [], w)
      | Some arts \<Rightarrow>
          (case fetch_loop srv (totalRecords s) rowsNeeded (map Some arts) (currentPage' + 1) w of
             (Inl e, requests, w') \<Rightarrow> (Inl e, requests, w')
           | (Inr fetchedArtworks, requests, w') \<Rightarrow>
               (Inr (slice0 fetchedArtworks rowsNeeded), requests, w')))"

text \<open>
  The rows \<^verbatim>\<open>handleRowSelection\<close> is about to merge, \<^verbatim>\<open>selectedRows\<close>: the copy of
  the loaded page, replaced by the result of \<^verbatim>\<open>fetchAdditionalPages\<close> when more rows
  are asked for than the page has.
\<close>

definition selectedRows ::
  "'w remote \<Rightarrow> state \<Rightarrow> int \<Rightarrow> artwork list \<Rightarrow> 'w \<Rightarrow>
     (error + artwork option list) \<times> (int \<times> response) list \<times> 'w" where
  "selectedRows srv s rowsNeeded arts w =
     (if rowsNeeded > int (length arts) then fetchAdditionalPages srv s rowsNeeded (currentPage s) w
      else (Inr (map Some arts), [], w))"

text \<open>
  \<^verbatim>\<open>handleRowSelection\<close>. It returns at once when \<^verbatim>\<open>rowsToFetch\<close> is null or 0.
  The setters are its last two statements, so whatever throws before leaves the state as
  it was.
\<close>

definition handleRowSelection ::
  "'w remote \<Rightarrow> state \<Rightarrow> 'w \<Rightarrow> (error + unit) \<times> state \<times> (int \<times> response) list \<times> 'w" where
  "handleRowSelection srv s w =
     (case rowsToFetch s of
        None \<Rightarrow> (Inr (), s, [], w)
      | Some rowsNeeded \<Rightarrow>
          if rowsNeeded = 0 then (Inr (), s, [], w)
          else
            (case artworks s of
               None \<Rightarrow> (Inl TypeError, s, [], w)
             | Some arts \<Rightarrow>
                 (case selectedRows srv s rowsNeeded arts w of
                    (Inl e, requests, w') \<Rightarrow> (Inl e, s, requests, w')
                  | (Inr rows', requests, w') \<Rightarrow>
                      (case forEach_set rows' (selectedArtworks s) of
                         Inl e \<Rightarrow> (Inl e, s, requests, w')
                       | Inr updatedSelection \<Rightarrow>
                           (Inr (),
                            s\<lparr>selectedArtworks := updatedSelection, showFilter := False\<rparr>,
                            requests, w')))))"

subsection \<open>Reading a run\<close>

text \<open>
  The elements one answer contributes to the buffer of \<open>fetch_loop\<close>: the records of
  its data array, one undefined element when the array is missing, nothing when the
  request threw.
\<close>

definition page_items :: "response \<Rightarrow> artwork option list" where
  "page_items r = (case r of JsonObject b \<Rightarrow> concat_js [] (data b) | _ \<Rightarrow> [])"

text \<open>
  An answer that brings no array of records: the request was rejected, the body was not
  JSON or was null, or the body has no data array.
\<close>

definition fetch_failed :: "response \<Rightarrow> bool" where
  "fetch_failed r = (case r of JsonObject b \<Rightarrow> data b = None | _ \<Rightarrow> True)"


text \<open>The record as \<open>forEach_set\<close> enters it into the map.\<close>

definition entry :: "artwork \<Rightarrow> int \<times> artwork" where
  "entry a = (artwork_id a, a)"

text \<open>The merge of \<open>forEach_set\<close> on rows that are all defined.\<close>

definition mergeIn :: "artwork list \<Rightarrow> selection \<Rightarrow> selection" where
  "mergeIn rows' m = fold (\<lambda>a. Map_set (artwork_id a) a) rows' m"

subsection \<open>A remote collection of 30 records\<close>

text \<open>
  A remote with 30 records, numbered from 1, in pages of 12: pages 1 and 2 are full, page
  3 has records 25 to 30, later pages are empty. Every answer reports the total 30.
\<close>

definition demo_artwork :: "int \<Rightarrow> artwork" where
  "demo_artwork i =
     \<lparr>artwork_id = i, title = ''Untitled'', place_of_origin = ''France'',
      artist_display = ''Unknown'', inscriptions = [], date_start = 1900, date_end = 1901\<rparr>"

definition demo_page :: "int \<Rightarrow> artwork list" where
  "demo_page p = map demo_artwork [12 * (p - 1) + 1 .. min (12 * p) 30]"

definition demo_remote :: "unit remote" where
  "demo_remote w p =
     (JsonObject \<lparr>data = Some (demo_page p), pagination = Some \<lparr>total = Some 30\<rparr>\<rparr>, w)"

text \<open>
  The component showing page \<open>p\<close> of that collection, nothing selected, the filter open
  with \<open>n\<close> entered.
\<close>

definition demo_state :: "int \<Rightarrow> int option \<Rightarrow> state" where
  "demo_state p n =
     \<lparr>artworks = Some (demo_page p), currentPage = p, firstRow = 12 * (p - 1),
      totalRecords = Some 30, selectedArtworks = [], showFilter = True, rowsToFetch = n\<rparr>"

text \<open>
  A remote whose answers have no data array: \<^verbatim>\<open>{ pagination: { total: 30 } }\<close>.
\<close>

definition nodata_remote :: "unit remote" where
  "nodata_remote w p = (JsonObject \<lparr>data = None, pagination = Some \<lparr>total = Some 30\<rparr>\<rparr>, w)"

text \<open>The remote of the 30 records with page 2 out of reach: its request is rejected.\<close>

definition failing_remote :: "unit remote" where
  "failing_remote w p = (if p = 2 then (FetchRejected, w) else demo_remote w p)"


section \<open>Properties\<close>

subsection \<open>The loop of \<open>fetchAdditionalPages\<close>\<close>

lemma page_in_range_iff:
  "page_in_range p tot = (case tot of None \<Rightarrow> False | Some t \<Rightarrow> p \<le> t div 12)"
proof (cases tot)
  case None
  then show ?thesis by (simp add: page_in_range_def)
next
  case (Some t)
  have "real_of_int p \<le> real_of_int t / 12 \<longleftrightarrow> real_of_int (12 * p) \<le> real_of_int t"
    by (simp add: le_divide_eq mult.commute)
  also have "\<dots> \<longleftrightarrow> 12 * p \<le> t"
    by (simp only: of_int_le_iff)
  also have "\<dots> \<longleftrightarrow> p \<le> t div 12"
    by presburger
  finally show ?thesis using Some by (simp add: page_in_range_def)
qed

lemma fetch_loop_stop:
  assumes "\<not> (int (length acc) < n \<and> page_in_range p tot)"
  shows "fetch_loop srv tot n acc p w = (Inr acc, [], w)"
  by (subst fetch_loop.simps) (simp only: if_not_P[OF assms])

lemma fetch_loop_step:
  "int (length acc) < n \<Longrightarrow> page_in_range p tot \<Longrightarrow> srv w p = (JsonObject b, w1) \<Longrightarrow>
   fetch_loop srv tot n acc p w =
     (case fetch_loop srv tot n (concat_js acc (data b)) (p + 1) w1 of
        (res, requests, w2) \<Rightarrow> (res, (p, JsonObject b) # requests, w2))"
  by (subst fetch_loop.simps) simp

lemma fetch_loop_throw:
  "int (length acc) < n \<Longrightarrow> page_in_range p tot \<Longrightarrow> srv w p = (r, w1) \<Longrightarrow>
   \<forall>b. r \<noteq> JsonObject b \<Longrightarrow>
   \<exists>e. fetch_loop srv tot n acc p w = (Inl e, [(p, r)], w1)"
  by (subst fetch_loop.simps) (cases r; simp)

lemma concat_js_page_items: "concat_js acc (data b) = acc @ page_items (JsonObject b)"
  by (simp add: concat_js_def page_items_def split: option.splits)

lemma fetch_loop_cases [consumes 1, case_names stop throw step]:
  assumes run: "fetch_loop srv tot n acc p w = (res, tr, w')"
    and stop: "\<And>acc p w. \<not> (int (length acc) < n \<and> page_in_range p tot) \<Longrightarrow>
                 P acc p w (Inr acc) [] w"
    and throw: "\<And>acc p w r w1 e. int (length acc) < n \<Longrightarrow> page_in_range p tot \<Longrightarrow>
                 srv w p = (r, w1) \<Longrightarrow> \<forall>b. r \<noteq> JsonObject b \<Longrightarrow>
                 fetch_loop srv tot n acc p w = (Inl e, [(p, r)], w1) \<Longrightarrow>
                 P acc p w (Inl e) [(p, r)] w1"
    and step: "\<And>acc p w b w1 res tr w2. int (length acc) < n \<Longrightarrow> page_in_range p tot \<Longrightarrow>
                 srv w p = (JsonObject b, w1) \<Longrightarrow>
                 fetch_loop srv tot n (concat_js acc (data b)) (p + 1) w1 = (res, tr, w2) \<Longrightarrow>
                 P (concat_js acc (data b)) (p + 1) w1 res tr w2 \<Longrightarrow>
                 P acc p w res ((p, JsonObject b) # tr) w2"
  shows "P acc p w res tr w'"
  using assms
proof (induction srv tot n acc p w arbitrary: res tr w' rule: fetch_loop.induct)
  case (1 srv tot n acc p w)
  show ?case
  proof (cases "int (length acc) < n \<and> page_in_range p tot")
    case False
    with "1.prems"(1) have "res = Inr acc" "tr = []" "w' = w"
      by (simp_all add: fetch_loop_stop)
    with False "1.prems"(2) show ?thesis by simp
  next
    case c: True
    then have c1: "int (length acc) < n" and c2: "page_in_range p tot" by simp_all
    obtain r w1 where r: "srv w p = (r, w1)" by (cases "srv w p")
    show ?thesis
    proof (cases "\<exists>b. r = JsonObject b")
      case False
      then have nobj: "\<forall>b. r \<noteq> JsonObject b" by simp
      with c r fetch_loop_throw[of acc n p tot srv w r w1] "1.prems"(1)
      obtain e where e: "res = Inl e" "tr = [(p, r)]" "w' = w1" by auto
      with "1.prems"(1) have "fetch_loop srv tot n acc p w = (Inl e, [(p, r)], w1)" by simp
      from "1.prems"(3)[OF c1 c2 r nobj this] e show ?thesis by simp
    next
      case True
      then obtain b where b: "r = JsonObject b" ..
      with r have rb: "srv w p = (JsonObject b, w1)" by simp
      obtain res2 tr2 w2 where
        rec: "fetch_loop srv tot n (concat_js acc (data b)) (p + 1) w1 = (res2, tr2, w2)"
        by (cases "fetch_loop srv tot n (concat_js acc (data b)) (p + 1) w1")
      have ih: "P (concat_js acc (data b)) (p + 1) w1 res2 tr2 w2"
        by (rule "1.IH"[OF c r[symmetric] b rec "1.prems"(2,3,4)])
      from c1 c2 rb rec "1.prems"(1)
      have "res = res2" "tr = (p, JsonObject b) # tr2" "w' = w2"
        by (simp_all add: fetch_loop_step)
      with "1.prems"(4)[OF c1 c2 rb rec ih] show ?thesis by simp
    qed
  qed
qed



lemma fetch_loop_buffer:
  "fetch_loop srv tot n acc p w = (res, tr, w') \<Longrightarrow> res = Inr xs \<Longrightarrow>
   xs = acc @ concat (map (page_items \<circ> snd) tr)"
proof (induction rule: fetch_loop_cases)
  case (step acc p w b w1 res tr w2)
  then show ?case by (simp add: concat_js_page_items)
qed simp_all

lemma fetch_loop_isl:
  "fetch_loop srv tot n acc p w = (res, tr, w') \<Longrightarrow>
   isl res \<longleftrightarrow> (\<exists>x \<in> set tr. \<forall>b. snd x \<noteq> JsonObject b)"
proof (induction rule: fetch_loop_cases)
  case (step acc p w b w1 res tr w2)
  then show ?case by simp
qed simp_all

lemma fetch_loop_undefined:
  "fetch_loop srv tot n acc p w = (res, tr, w') \<Longrightarrow> res = Inr xs \<Longrightarrow>
   (q, JsonObject b) \<in> set tr \<Longrightarrow> data b = None \<Longrightarrow> None \<in> set (slice0 xs n)"
proof (induction rule: fetch_loop_cases)
  case (step acc p w b' w1 res tr w2)
  show ?case
  proof (cases "(q, JsonObject b) \<in> set tr")
    case True
    with step show ?thesis by simp
  next
    case False
    with step.prems have b': "b' = b" by simp
    from step.hyps(4) step.prems(1)
    have "xs = concat_js acc (data b) @ concat (map (page_items \<circ> snd) tr)"
      using b' by (simp add: fetch_loop_buffer)
    moreover have "0 < nat n - length acc"
      using step.hyps(1) by linarith
    then obtain k where "nat n - length acc = Suc k"
      by (cases "nat n - length acc") auto
    ultimately show ?thesis
      using step.prems(3) step.hyps(1) by (simp add: concat_js_def slice0_def)
  qed
qed simp_all


subsection \<open>The selection map\<close>

lemma Map_keys_simps [simp]:
  "Map_keys [] = []" "Map_keys ((k, v) # m) = k # Map_keys m" "Map_keys (m @ m') = Map_keys m @ Map_keys m'"
  by (simp_all add: Map_keys_def)

lemma length_Map_keys [simp]: "length (Map_keys m) = length m"
  by (simp add: Map_keys_def)

lemma Map_set_new: "k \<notin> set (Map_keys m) \<Longrightarrow> Map_set k v m = m @ [(k, v)]"
  by (induction m) auto




lemma forEach_set_defined: "forEach_set (map Some rows') m = Inr (mergeIn rows' m)"
  by (induction rows' arbitrary: m) (simp_all add: mergeIn_def)

lemma forEach_set_undefined: "None \<in> set rows' \<Longrightarrow> forEach_set rows' m = Inl TypeError"
proof (induction rows' arbitrary: m)
  case Nil
  then show ?case by simp
next
  case (Cons x rows')
  then show ?case by (cases x) auto
qed


lemma mergeIn_simps [simp]:
  "mergeIn [] m = m" "mergeIn (a # as) m = mergeIn as (Map_set (artwork_id a) a m)"
  by (simp_all add: mergeIn_def)

lemma mergeIn_fresh:
  "distinct (Map_keys m @ map artwork_id as) \<Longrightarrow> mergeIn as m = m @ map entry as"
proof (induction as arbitrary: m)
  case Nil
  then show ?case by simp
next
  case (Cons a as)
  from Cons.prems have "artwork_id a \<notin> set (Map_keys m)" by auto
  then have s: "Map_set (artwork_id a) a m = m @ [entry a]"
    by (simp add: Map_set_new entry_def)
  from Cons.prems have "distinct (Map_keys (m @ [entry a]) @ map artwork_id as)"
    by (auto simp: entry_def)
  from Cons.IH[OF this] s show ?case by simp
qed




subsection \<open>Page changes\<close>

text \<open>
  Claim C7. For a page-change event with a non-negative row offset \<open>first\<close> and a positive
  page size \<open>rows\<close>, \<open>handlePageChange\<close> sets the page number to
  \<open>floor (first / rows) + 1\<close>, which is \<open>first div rows + 1\<close>, and the first row
  to the reported offset, and changes nothing else. That page number is at least 1 and
  its page is the one holding the offset.
\<close>

theorem handlePageChange_target:
  assumes "0 \<le> first event" and "0 < rows event"
  shows "handlePageChange event s =
           Some (s\<lparr>firstRow := first event, currentPage := first event div rows event + 1\<rparr>) \<and>
         1 \<le> first event div rows event + 1 \<and>
         (first event div rows event + 1 - 1) * rows event \<le> first event \<and>
         first event < (first event div rows event + 1) * rows event"
proof -
  have "\<lfloor>real_of_int (first event) / real_of_int (rows event)\<rfloor> = first event div rows event"
    by (rule floor_divide_of_int_eq)
  with assms(2) have "handlePageChange event s =
      Some (s\<lparr>firstRow := first event, currentPage := first event div rows event + 1\<rparr>)"
    by (simp add: handlePageChange_def)
  moreover from assms have "0 \<le> first event div rows event"
    by (simp add: pos_imp_zdiv_nonneg_iff)
  moreover have e: "rows event * (first event div rows event) + first event mod rows event = first event"
    by (rule mult_div_mod_eq)
  have "0 \<le> first event mod rows event" and "first event mod rows event < rows event"
    using assms(2) by simp_all
  with e have "rows event * (first event div rows event) \<le> first event"
    and "first event < rows event + rows event * (first event div rows event)"
    by linarith+
  ultimately show ?thesis
    by (simp add: algebra_simps)
qed

text \<open>Offset 24 in pages of 12 is page 3.\<close>

theorem handlePageChange_target_witness:
  "handlePageChange \<lparr>first = 24, rows = 12\<rparr> (demo_state 1 None) =
     Some ((demo_state 1 None)\<lparr>firstRow := 24, currentPage := 3\<rparr>)"
  using handlePageChange_target[of "\<lparr>first = 24, rows = 12\<rparr>" "demo_state 1 None"]
  by simp

subsection \<open>Replacing the selection\<close>

text \<open>
  Claim C8. When the table reports a new selection \<open>X\<close> whose records have pairwise
  distinct identities, the selection handed back to the table afterwards is exactly
  \<open>X\<close>: the same records in the same order, keyed by their identities, whatever was
  selected before.
\<close>

theorem onSelectionChange_replaces:
  assumes "distinct (map artwork_id X)"
  shows "selection_prop (onSelectionChange X s) = X \<and>
         selectedArtworks (onSelectionChange X s) = map entry X \<and>
         Map_keys (selectedArtworks (onSelectionChange X s)) = map artwork_id X"
proof -
  from assms have "mergeIn X [] = map entry X"
    using mergeIn_fresh[of "[]" X] by simp
  then have "selectedArtworks (onSelectionChange X s) = map entry X"
    by (simp add: onSelectionChange_def forEach_set_defined)
  then show ?thesis
    by (simp add: selection_prop_def Map_values_def Map_keys_def entry_def comp_def)
qed

text \<open>Three records replace a selection of two others.\<close>

theorem onSelectionChange_replaces_witness:
  "distinct (map artwork_id [demo_artwork 7, demo_artwork 2, demo_artwork 30]) \<and>
   selection_prop (onSelectionChange [demo_artwork 7, demo_artwork 2, demo_artwork 30]
      ((demo_state 1 None)\<lparr>selectedArtworks := [entry (demo_artwork 2), entry (demo_artwork 5)]\<rparr>)) =
     [demo_artwork 7, demo_artwork 2, demo_artwork 30]"
proof -
  have d: "distinct (map artwork_id [demo_artwork 7, demo_artwork 2, demo_artwork 30])"
    by (simp add: demo_artwork_def)
  from onSelectionChange_replaces[OF d] d show ?thesis by blast
qed

subsection \<open>Merging into the selection\<close>



subsection \<open>Fetching one page\<close>

text \<open>
  Claim C4, as stated, fails: a body without data array does not make
  \<open>fetchArtworksByPage\<close> fail. It completes, and the loaded page is undefined afterwards.
\<close>

theorem fetchArtworksByPage_accepts_missing_data:
  "fetchArtworksByPage nodata_remote 1 initial_state () =
     (Inr (), initial_state\<lparr>artworks := None, totalRecords := Some 30\<rparr>, ())"
  by (simp add: fetchArtworksByPage_def nodata_remote_def)

text \<open>
  Claim C4, amended. \<open>fetchArtworksByPage\<close> checks no shape and has no decode error of
  its own. It fails exactly when the request is rejected, when the body is not JSON, and
  (with a type error) when the body is null or has no pagination object. A body with a
  pagination object is accepted whether or not the data array and the pagination total
  are there: both are stored as they come.
\<close>

theorem fetchArtworksByPage_outcome:
  assumes "srv w p = (r, w1)"
  shows "fst (fetchArtworksByPage srv p s w) =
           (case r of
              FetchRejected \<Rightarrow> Inl NetworkError
            | JsonRejected \<Rightarrow> Inl SyntaxError
            | JsonNull \<Rightarrow> Inl TypeError
            | JsonObject b \<Rightarrow> (if pagination b = None then Inl TypeError else Inr ())) \<and>
         (r = JsonObject b \<and> pagination b = Some pg \<longrightarrow>
            fetchArtworksByPage srv p s w =
              (Inr (), s\<lparr>artworks := data b, totalRecords := total pg\<rparr>, w1))"
  using assms by (cases r) (auto simp: fetchArtworksByPage_def split: option.splits)

text \<open>The body without data array, accepted.\<close>

theorem fetchArtworksByPage_outcome_witness:
  "fetchArtworksByPage nodata_remote 3 (demo_state 1 None) () =
     (Inr (), (demo_state 1 None)\<lparr>artworks := None, totalRecords := Some 30\<rparr>, ())"
proof -
  have "nodata_remote () 3 = (JsonObject \<lparr>data = None, pagination = Some \<lparr>total = Some 30\<rparr>\<rparr>, ())"
    by (simp add: nodata_remote_def)
  from this fetchArtworksByPage_outcome[where srv = nodata_remote and w = "()" and p = 3
      and s = "demo_state 1 None" and pg = "\<lparr>total = Some 30\<rparr>"
      and b = "\<lparr>data = None, pagination = Some \<lparr>total = Some 30\<rparr>\<rparr>"]
  show ?thesis by simp
qed

subsection \<open>The two paths of \<open>handleRowSelection\<close>\<close>

lemma fetchAdditionalPages_loop:
  assumes "artworks s = Some arts"
    and "fetch_loop srv (totalRecords s) n (map Some arts) (cp + 1) w = (res, tr, w')"
  shows "fetchAdditionalPages srv s n cp w =
           (case res of Inl e \<Rightarrow> Inl e | Inr xs \<Rightarrow> Inr (slice0 xs n), tr, w')"
  using assms by (simp add: fetchAdditionalPages_def split: sum.splits)


lemma handleRowSelection_idle:
  "rowsToFetch s = None \<or> rowsToFetch s = Some 0 \<Longrightarrow> handleRowSelection srv s w = (Inr (), s, [], w)"
  by (auto simp: handleRowSelection_def)

lemma handleRowSelection_within_page:
  assumes "rowsToFetch s = Some n" and "n \<noteq> 0" and "artworks s = Some arts"
    and "n \<le> int (length arts)"
  shows "handleRowSelection srv s w =
           (Inr (), s\<lparr>selectedArtworks := mergeIn arts (selectedArtworks s), showFilter := False\<rparr>,
            [], w)"
  using assms by (simp add: handleRowSelection_def selectedRows_def forEach_set_defined)

lemma handleRowSelection_beyond_page:
  assumes "rowsToFetch s = Some n" and "artworks s = Some arts" and "int (length arts) < n"
    and "fetch_loop srv (totalRecords s) n (map Some arts) (currentPage s + 1) w = (res, tr, w')"
  shows "handleRowSelection srv s w =
           (case res of
              Inl e \<Rightarrow> (Inl e, s, tr, w')
            | Inr xs \<Rightarrow>
                (case forEach_set (slice0 xs n) (selectedArtworks s) of
                   Inl e \<Rightarrow> (Inl e, s, tr, w')
                 | Inr m \<Rightarrow> (Inr (), s\<lparr>selectedArtworks := m, showFilter := False\<rparr>, tr, w')))"
proof -
  from assms(3) have "n \<noteq> 0" by auto
  with assms show ?thesis
    by (simp add: handleRowSelection_def selectedRows_def fetchAdditionalPages_def
        split: sum.splits)
qed

lemma handleRowSelection_cases [consumes 1, case_names direct fetched]:
  assumes run: "handleRowSelection srv s w = (out, s', tr, w')"
  obtains (direct) "tr = []" and "w' = w"
  | (fetched) n arts res where "rowsToFetch s = Some n" and "artworks s = Some arts"
      and "int (length arts) < n"
      and "fetch_loop srv (totalRecords s) n (map Some arts) (currentPage s + 1) w = (res, tr, w')"
proof (cases "rowsToFetch s")
  case None
  with run direct show thesis by (simp add: handleRowSelection_idle)
next
  case n: (Some n)
  show thesis
  proof (cases "n = 0")
    case True
    with n run direct show thesis by (simp add: handleRowSelection_idle)
  next
    case n0: False
    show thesis
    proof (cases "artworks s")
      case None
      with n n0 run direct show thesis by (simp add: handleRowSelection_def)
    next
      case arts: (Some arts)
      show thesis
      proof (cases "int (length arts) < n")
        case False
        then have "n \<le> int (length arts)" by simp
        from handleRowSelection_within_page[OF n n0 arts this, of srv w] run direct
        show thesis by simp
      next
        case lt: True
        obtain res tr2 w2 where loop:
          "fetch_loop srv (totalRecords s) n (map Some arts) (currentPage s + 1) w = (res, tr2, w2)"
          by (cases "fetch_loop srv (totalRecords s) n (map Some arts) (currentPage s + 1) w")
        from handleRowSelection_beyond_page[OF n arts lt loop] run
        have "tr2 = tr" "w2 = w'" by (auto split: sum.splits)
        with loop fetched[OF n arts lt] show thesis by simp
      qed
    qed
  qed
qed

subsection \<open>A request that fails\<close>

text \<open>
  Claim C5. If any request made during a bulk selection fails (it is rejected, its body
  is not JSON or is null, or its body has no data array), the whole operation fails and
  the state is exactly the one before the call: the selection, the loaded page, the
  current page and the first row are untouched and nothing has been merged.
\<close>

theorem handleRowSelection_failed_fetch:
  assumes run: "handleRowSelection srv s w = (out, s', tr, w')"
    and req: "(q, r) \<in> set tr" and failed: "fetch_failed r"
  shows "isl out \<and> s' = s"
proof -
  from req have "tr \<noteq> []" by auto
  with run obtain n arts res where n: "rowsToFetch s = Some n" and arts: "artworks s = Some arts"
    and lt: "int (length arts) < n"
    and loop: "fetch_loop srv (totalRecords s) n (map Some arts) (currentPage s + 1) w = (res, tr, w')"
    by (cases rule: handleRowSelection_cases) auto
  note unfold = handleRowSelection_beyond_page[OF n arts lt loop]
  show ?thesis
  proof (cases res)
    case (Inl e)
    with unfold run show ?thesis by simp
  next
    case (Inr xs)
    with loop fetch_loop_isl[OF loop] have "\<forall>x \<in> set tr. \<exists>b. snd x = JsonObject b" by simp
    with req obtain b where b: "r = JsonObject b" by fastforce
    with failed have "data b = None" by (simp add: fetch_failed_def)
    with fetch_loop_undefined[OF loop Inr] req b have "None \<in> set (slice0 xs n)" by simp
    then have "forEach_set (slice0 xs n) (selectedArtworks s) = Inl TypeError"
      by (rule forEach_set_undefined)
    with unfold run Inr show ?thesis by simp
  qed
qed

text \<open>
  Asking for 20 rows on page 1 when the request for page 2 is rejected: the operation
  fails with the network error and the state, one record selected, is as before.
\<close>

theorem handleRowSelection_failed_fetch_witness:
  "handleRowSelection failing_remote
      ((demo_state 1 (Some 20))\<lparr>selectedArtworks := [entry (demo_artwork 5)]\<rparr>) () =
     (Inl NetworkError, (demo_state 1 (Some 20))\<lparr>selectedArtworks := [entry (demo_artwork 5)]\<rparr>,
      [(2, FetchRejected)], ()) \<and>
   fetch_failed FetchRejected"
proof -
  let ?s = "(demo_state 1 (Some 20))\<lparr>selectedArtworks := [entry (demo_artwork 5)]\<rparr>"
  obtain out s' tr w' where run: "handleRowSelection failing_remote ?s () = (out, s', tr, w')"
    by (cases "handleRowSelection failing_remote ?s ()")
  have tr: "fst (snd (snd (handleRowSelection failing_remote ?s ()))) = [(2, FetchRejected)]"
    and out: "fst (handleRowSelection failing_remote ?s ()) = Inl NetworkError"
    by code_simp+
  have f: "fetch_failed FetchRejected" by (simp add: fetch_failed_def)
  from run tr have "(2, FetchRejected) \<in> set tr" by simp
  from handleRowSelection_failed_fetch[OF run this f] run tr out f show ?thesis by simp
qed


subsection \<open>Which pages are requested\<close>


lemma page_items_pagination [simp]:
  "page_items (JsonObject (b\<lparr>pagination := x\<rparr>)) = page_items (JsonObject b)"
  by (simp add: page_items_def)










subsection \<open>Scenarios with 30 records\<close>

text \<open>
  Claim C3. With 12 records loaded on page 1 and a known total of 30, asking for 20 rows
  makes one request, for page 2, and yields 20 records: the 12 loaded ones followed by
  the first 8 of page 2, which are merged into the selection.
\<close>

theorem ensure_20_of_30:
  assumes arts: "artworks s = Some arts" and len: "length arts = 12"
    and tot: "totalRecords s = Some 30" and cur: "currentPage s = 1"
    and n: "rowsToFetch s = Some 20"
    and page2: "srv w 2 = (JsonObject b, w2)" and dat: "data b = Some page2"
    and len2: "8 \<le> length page2"
  shows "fetchAdditionalPages srv s 20 1 w =
           (Inr (map Some (arts @ take 8 page2)), [(2, JsonObject b)], w2) \<and>
         length (arts @ take 8 page2) = 20 \<and>
         handleRowSelection srv s w =
           (Inr (),
            s\<lparr>selectedArtworks := mergeIn (arts @ take 8 page2) (selectedArtworks s),
              showFilter := False\<rparr>,
            [(2, JsonObject b)], w2)"
proof -
  have in_range: "page_in_range 2 (Some 30)"
    by (simp add: page_in_range_iff)
  have "\<not> (int (length (concat_js (map Some arts) (data b))) < 20 \<and> page_in_range 3 (Some 30))"
    using len len2 dat by (simp add: concat_js_def)
  then have stop: "fetch_loop srv (Some 30) 20 (concat_js (map Some arts) (data b)) (2 + 1) w2 =
      (Inr (concat_js (map Some arts) (data b)), [], w2)"
    using fetch_loop_stop[of "concat_js (map Some arts) (data b)" 20 3 "Some 30" srv w2] by simp
  have "int (length (map Some arts)) < 20" using len by simp
  from fetch_loop_step[where srv = srv and w = w, OF this in_range page2] stop
  have loop: "fetch_loop srv (totalRecords s) 20 (map Some arts) (1 + 1) w =
      (Inr (map Some arts @ map Some page2), [(2, JsonObject b)], w2)"
    using tot dat by (simp add: concat_js_def)
  have sl: "slice0 (map Some arts @ map Some page2) 20 = map Some (arts @ take 8 page2)"
    using len by (simp add: slice0_def take_map)
  from fetchAdditionalPages_loop[OF arts loop] sl
  have 1: "fetchAdditionalPages srv s 20 1 w =
           (Inr (map Some (arts @ take 8 page2)), [(2, JsonObject b)], w2)" by simp
  have 2: "length (arts @ take 8 page2) = 20" using len len2 by simp
  have lt: "int (length arts) < 20" using len by simp
  from loop cur have loop': "fetch_loop srv (totalRecords s) 20 (map Some arts) (currentPage s + 1) w =
      (Inr (map Some arts @ map Some page2), [(2, JsonObject b)], w2)" by simp
  have fe: "forEach_set (slice0 (map Some arts @ map Some page2) 20) (selectedArtworks s) =
      Inr (mergeIn (arts @ take 8 page2) (selectedArtworks s))"
    by (simp only: sl forEach_set_defined)
  from handleRowSelection_beyond_page[OF n arts lt loop'] fe
  have 3: "handleRowSelection srv s w =
           (Inr (),
            s\<lparr>selectedArtworks := mergeIn (arts @ take 8 page2) (selectedArtworks s),
              showFilter := False\<rparr>,
            [(2, JsonObject b)], w2)"
    by simp
  from 1 2 3 show ?thesis by simp
qed

text \<open>On the collection of 30 records these are the records 1 to 20.\<close>

theorem ensure_20_of_30_witness:
  "map fst (fst (snd (fetchAdditionalPages demo_remote (demo_state 1 (Some 20)) 20 1 ()))) = [2] \<and>
   fst (fetchAdditionalPages demo_remote (demo_state 1 (Some 20)) 20 1 ()) =
     Inr (map Some (demo_page 1 @ take 8 (demo_page 2))) \<and>
   length (demo_page 1 @ take 8 (demo_page 2)) = 20 \<and>
   map artwork_id (demo_page 1 @ take 8 (demo_page 2)) = [1 .. 20]"
proof -
  let ?b = "\<lparr>data = Some (demo_page 2), pagination = Some \<lparr>total = Some 30\<rparr>\<rparr>"
  have h: "artworks (demo_state 1 (Some 20)) = Some (demo_page 1)" "length (demo_page 1) = 12"
    "totalRecords (demo_state 1 (Some 20)) = Some 30" "currentPage (demo_state 1 (Some 20)) = 1"
    "rowsToFetch (demo_state 1 (Some 20)) = Some 20"
    "demo_remote () 2 = (JsonObject ?b, ())" "data ?b = Some (demo_page 2)"
    "8 \<le> length (demo_page 2)"
    by code_simp+
  have ids: "map artwork_id (demo_page 1 @ take 8 (demo_page 2)) = [1 .. 20]"
    by code_simp
  from ensure_20_of_30[where srv = demo_remote and w = "()", OF h] ids show ?thesis by simp
qed

text \<open>
  Claim C1, at the input where the code departs from it. With the 12 records of page 1
  loaded, asking for 5 rows makes no request, as claimed, but merges all 12 records of
  the page and not its first 5: \<open>handleRowSelection\<close> cuts the rows to the requested
  number only on the path through \<open>fetchAdditionalPages\<close>.
\<close>

theorem fast_path_selects_whole_page:
  "handleRowSelection demo_remote (demo_state 1 (Some 5)) () =
     (Inr (),
      (demo_state 1 (Some 5))\<lparr>selectedArtworks := map entry (demo_page 1), showFilter := False\<rparr>,
      [], ()) \<and>
   map artwork_id (demo_page 1) = [1, 2, 3, 4, 5, 6, 7, 8, 9, 10, 11, 12] \<and>
   map artwork_id (take 5 (demo_page 1)) = [1, 2, 3, 4, 5]"
  by code_simp


text \<open>
  The loop condition \<^verbatim>\<open>nextPage <= totalRecords / 12\<close> compares the page number
  with 2.5 when the total is 30, so the partial page 3 is never requested: asking for 30
  rows, or for 40, on page 1 requests page 2 only, and 30 yields 24 records.
\<close>

lemma ensure_30_of_30_stops_at_page_2:
  "fetchAdditionalPages demo_remote (demo_state 1 (Some 30)) 30 1 () =
     (Inr (map Some (demo_page 1 @ demo_page 2)),
      [(2, JsonObject \<lparr>data = Some (demo_page 2), pagination = Some \<lparr>total = Some 30\<rparr>\<rparr>)], ()) \<and>
   length (demo_page 1 @ demo_page 2) = 24 \<and>
   map fst (fst (snd (fetchAdditionalPages demo_remote (demo_state 1 (Some 40)) 40 1 ()))) = [2]"
  by code_simp



end
